theory Spec2Isabelle
  imports Complex_Main "HOL-Library.Sublist" "HOL-Library.Log_Nat"
begin

section \<open>Core types (core/types.py)\<close>

datatype AgentStatus = IDLE | THINKING | SPEAKING | OFFLINE

datatype MessageType = CHAT | SYSTEM | ACTION | JOIN | LEAVE

datatype ScheduleMode = TURN_BASED | ASYNC | HYBRID

text \<open>
  A Python \<open>datetime\<close> has microsecond resolution: a point in time is the integer number
  of microseconds since some fixed origin.
\<close>

type_synonym datetime = int

section \<open>Messages (core/message.py)\<close>

record Message =
  sender_id :: string
  sender_name :: string
  content :: string
  channel :: string
  msg_id :: string
  msg_type :: MessageType
  timestamp :: datetime
  reply_to :: "string option"
  mentions :: "string list"

section \<open>Channels (arena/channel.py)\<close>

text \<open>
  Python's slice \<open>xs[i:]\<close> for an integer \<open>i\<close>: a negative \<open>i\<close> counts from the end
  (and is clipped at the front of the list), a non-negative one from the front. Note that
  \<open>xs[-0:]\<close> is \<open>xs[0:]\<close>, the whole list.
\<close>

definition slice_from :: "int \<Rightarrow> 'a list \<Rightarrow> 'a list" where
  "slice_from i xs =
     (if i < 0 then drop (nat (int (length xs) + i)) xs else drop (nat i) xs)"

record Channel =
  ch_name :: string
  ch_description :: string
  ch_id :: string
  topic :: string
  created_at :: datetime
  members :: "string set"
  messages :: "Message list"
  max_history :: int

definition add_member :: "string \<Rightarrow> Channel \<Rightarrow> Channel" where
  "add_member agent_id c = c\<lparr>members := insert agent_id (members c)\<rparr>"

definition remove_member :: "string \<Rightarrow> Channel \<Rightarrow> Channel" where
  "remove_member agent_id c = c\<lparr>members := members c - {agent_id}\<rparr>"

definition add_message :: "Message \<Rightarrow> Channel \<Rightarrow> Channel" where
  "add_message m c =
     (let ms = messages c @ [m]
      in if int (length ms) > max_history c
         then c\<lparr>messages := slice_from (- max_history c) ms\<rparr>
         else c\<lparr>messages := ms\<rparr>)"

definition get_recent_messages :: "int \<Rightarrow> Channel \<Rightarrow> Message list" where
  "get_recent_messages count c = slice_from (- count) (messages c)"

definition clear_messages :: "Channel \<Rightarrow> nat \<times> Channel" where
  "clear_messages c = (length (messages c), c\<lparr>messages := []\<rparr>)"

text \<open>A sequence of \<open>add_message\<close> calls, in order.\<close>

definition add_messages :: "Message list \<Rightarrow> Channel \<Rightarrow> Channel" where
  "add_messages ms c = foldl (\<lambda>c m. add_message m c) c ms"

text \<open>The last \<open>n\<close> elements of a list (all of it when it is shorter).\<close>

definition last_n :: "nat \<Rightarrow> 'a list \<Rightarrow> 'a list" where
  "last_n n xs = drop (length xs - n) xs"

text \<open>\<open>Channel(name=n)\<close> with the dataclass defaults, the identifier and time given.\<close>

definition new_channel :: "string \<Rightarrow> string \<Rightarrow> string \<Rightarrow> datetime \<Rightarrow> Channel" where
  "new_channel n d i t =
     \<lparr>ch_name = n, ch_description = d, ch_id = i, topic = [], created_at = t,
      members = {}, messages = [], max_history = 1000\<rparr>"

definition sample_message :: "string \<Rightarrow> string \<Rightarrow> Message" where
  "sample_message who txt =
     \<lparr>sender_id = who, sender_name = who, content = txt, channel = ''general'',
      msg_id = ''m'', msg_type = CHAT, timestamp = 0, reply_to = None, mentions = []\<rparr>"

section \<open>Python values\<close>

datatype py_error = ValueError | RuntimeError | KeyError | CancelledError

subsection \<open>Strings\<close>

text \<open>
  A Python \<open>str\<close> is read as a list of code points below 256. \<open>str.lower\<close> maps the
  upper-case letters of that range to their lower-case ones, \<open>str.strip\<close> removes the
  characters for which \<open>str.isspace\<close> holds from both ends, and \<open>a in b\<close> on strings
  is the test for a contiguous substring (\<open>sublist\<close>).
\<close>

definition lower_char :: "char \<Rightarrow> char" where
  "lower_char c =
     (let n = (of_char c :: nat)
      in if (65 \<le> n \<and> n \<le> 90) \<or> (192 \<le> n \<and> n \<le> 222 \<and> n \<noteq> 215)
         then char_of (n + 32) else c)"

definition lower :: "string \<Rightarrow> string" where
  "lower s = map lower_char s"

definition isspace :: "char \<Rightarrow> bool" where
  "isspace c = ((of_char c :: nat) \<in> {9, 10, 11, 12, 13, 28, 29, 30, 31, 32, 133, 160})"

definition strip :: "string \<Rightarrow> string" where
  "strip s = rev (dropWhile isspace (rev (dropWhile isspace s)))"

definition newline :: string where
  "newline = [char_of (10 :: nat)]"

subsection \<open>Floats\<close>

text \<open>
  A Python \<open>float\<close> is an IEEE-754 binary64 number. A finite one is a rational number, and
  an arithmetic operation returns the exact result rounded to the nearest binary64 number,
  ties to the even significand: 53 significant bits, the unit in the last place never
  below \<open>2\<^sup>-\<^sup>1\<^sup>0\<^sup>7\<^sup>4\<close> (the subnormal range). \<open>fl\<close> is that rounding; a float literal such as
  \<open>0.3\<close> is \<open>fl (3/10)\<close>. Overflow to infinity is not modelled: the quantities computed
  here never exceed their finite inputs in magnitude by more than one.
\<close>

definition round_half_even :: "rat \<Rightarrow> int" where
  "round_half_even r =
     (let f = \<lfloor>r\<rfloor>; d = r - of_int f
      in if d < 1/2 then f else if 1/2 < d then f + 1 else if even f then f else f + 1)"

text \<open>\<open>ilog2 x\<close> is the integer \<open>e\<close> with \<open>2\<^sup>e \<le> x < 2\<^sup>e\<^sup>+\<^sup>1\<close>, for a positive \<open>x\<close>.\<close>

definition ilog2 :: "rat \<Rightarrow> int" where
  "ilog2 x =
     (let p = fst (quotient_of x); q = snd (quotient_of x); d = bitlen p - bitlen q
      in if 2 powi d \<le> x then d else d - 1)"

definition ulp :: "rat \<Rightarrow> rat" where
  "ulp x = 2 powi (max (ilog2 \<bar>x\<bar>) (- 1022) - 52)"

definition fl :: "rat \<Rightarrow> rat" where
  "fl x = (if x = 0 then 0 else of_int (round_half_even (x / ulp x)) * ulp x)"

definition fmul :: "rat \<Rightarrow> rat \<Rightarrow> rat" where
  "fmul x y = fl (x * y)"

definition fadd :: "rat \<Rightarrow> rat \<Rightarrow> rat" where
  "fadd x y = fl (x + y)"

text \<open>
  \<open>(t1 - t0).total_seconds()\<close>: the difference in microseconds, divided by \<open>10\<^sup>6\<close> as a
  float.
\<close>

definition total_seconds :: "datetime \<Rightarrow> datetime \<Rightarrow> rat" where
  "total_seconds t1 t0 = fl (of_int (t1 - t0) / 1000000)"

section \<open>Events (core/events.py)\<close>

text \<open>The payloads the arena puts into its events.\<close>

datatype event_data =
    MessageData string Message
  | AgentData string string
  | ThinkingData string string bool
  | RoundData int
  | RoundEndData int nat
  | ModeData ScheduleMode
  | RoundsData int

record Event =
  ev_type :: string
  ev_data :: event_data
  ev_timestamp :: datetime

datatype task = Pending | Cancelled

text \<open>
  The handler table is a dictionary from event types to lists of handlers. The lists are
  mutable objects held by the dictionary: an operation on a list obtained from the
  dictionary changes the stored list. Handlers are opaque callables, of type \<open>'h\<close>.
\<close>

record 'h EventBus =
  handlers :: "string \<rightharpoonup> 'h list"
  queue :: "Event list"
  bus_running :: bool
  bus_task :: "task option"

definition new_bus :: "'h EventBus" where
  "new_bus = \<lparr>handlers = Map.empty, queue = [], bus_running = False, bus_task = None\<rparr>"

definition subscribe :: "string \<Rightarrow> 'h \<Rightarrow> 'h EventBus \<Rightarrow> 'h EventBus" where
  "subscribe event_type handler b =
     (let hs = (case handlers b event_type of None \<Rightarrow> [] | Some hs \<Rightarrow> hs)
      in b\<lparr>handlers := (handlers b)(event_type \<mapsto> hs @ [handler])\<rparr>)"

text \<open>\<open>list.remove\<close> deletes the first occurrence and raises \<open>ValueError\<close> when there is none.\<close>

definition unsubscribe :: "string \<Rightarrow> 'h \<Rightarrow> 'h EventBus \<Rightarrow> py_error + 'h EventBus" where
  "unsubscribe event_type handler b =
     (case handlers b event_type of
        None \<Rightarrow> Inr b
      | Some hs \<Rightarrow>
          if handler \<in> set hs
          then Inr (b\<lparr>handlers := (handlers b)(event_type \<mapsto> remove1 handler hs)\<rparr>)
          else Inl ValueError)"

definition emit :: "Event \<Rightarrow> 'h EventBus \<Rightarrow> 'h EventBus" where
  "emit e b = b\<lparr>queue := queue b @ [e]\<rparr>"

definition bus_start :: "'h EventBus \<Rightarrow> 'h EventBus" where
  "bus_start b = b\<lparr>bus_running := True, bus_task := Some Pending\<rparr>"

definition bus_stop :: "'h EventBus \<Rightarrow> 'h EventBus" where
  "bus_stop b =
     (let b1 = b\<lparr>bus_running := False\<rparr>
      in case bus_task b1 of None \<Rightarrow> b1 | Some _ \<Rightarrow> b1\<lparr>bus_task := Some Cancelled\<rparr>)"

text \<open>
  \<open>_dispatch\<close> returns the handlers it invokes, in order, and the bus afterwards. A
  handler that raises is caught and the loop goes on, so every handler of the list is
  invoked. \<open>self._handlers.get(event.type, [])\<close> is the stored list itself when the type
  has one, and a fresh empty list otherwise; \<open>extend\<close> then appends the wildcard handlers
  to that very list. (When the event's type is \<open>"*"\<close> the list is extended by itself.)
\<close>

definition dispatch :: "Event \<Rightarrow> 'h EventBus \<Rightarrow> 'h list \<times> 'h EventBus" where
  "dispatch event b =
     (let wildcard = (case handlers b ''*'' of None \<Rightarrow> [] | Some ws \<Rightarrow> ws)
      in case handlers b (ev_type event) of
           None \<Rightarrow> ([] @ wildcard, b)
         | Some hs \<Rightarrow>
             (hs @ wildcard, b\<lparr>handlers := (handlers b)(ev_type event \<mapsto> hs @ wildcard)\<rparr>))"

text \<open>The handlers subscribed to a type, as the table stores them.\<close>

definition subscribed :: "string \<Rightarrow> 'h EventBus \<Rightarrow> 'h list" where
  "subscribed event_type b = (case handlers b event_type of None \<Rightarrow> [] | Some hs \<Rightarrow> hs)"

section \<open>Agents (agents/agent.py)\<close>

text \<open>
  \<open>client\<close> tells whether \<open>_client\<close> holds an API client. A conversation history entry
  is a pair of a role and a content.
\<close>

record Agent =
  name :: string
  description :: string
  system_prompt :: string
  speaking_style :: string
  interests :: "string list"
  response_tendency :: rat
  temperature :: rat
  model :: string
  tools :: "string list"
  agent_id :: string
  status :: AgentStatus
  last_spoke_at :: "datetime option"
  message_count :: int
  conversation_history :: "(string \<times> string) list"
  client :: bool

text \<open>
  What the awaited API call does: it returns a response whose first content block has the
  given text, it raises an \<open>Exception\<close> (also when the response has no usable content
  block), or the task is cancelled while it waits (\<open>CancelledError\<close>, which is no
  \<open>Exception\<close> and passes the \<open>except\<close> clause).
\<close>

datatype api_outcome = ApiReturns string | ApiRaises | ApiCancelled

definition user_message :: "string \<Rightarrow> string \<Rightarrow> string" where
  "user_message chat_context nm =
     ''Current conversation:'' @ newline @ newline @ chat_context @ newline @ newline @
     ''Now respond as '' @ nm @
     ''. Keep it brief (1-2 sentences). Just your response, nothing else.''"

text \<open>The \<open>try\<close> block of \<open>step\<close> with its \<open>except Exception\<close> clause.\<close>

definition step_try ::
  "string \<Rightarrow> datetime \<Rightarrow> api_outcome \<Rightarrow> Agent \<Rightarrow> (py_error + string option) \<times> Agent" where
  "step_try chat_context now api a =
     (let h1 = conversation_history a @ [(''user'', user_message chat_context (name a))];
          h2 = (if length h1 > 40 then slice_from (- 40) h1 else h1);
          a1 = a\<lparr>conversation_history := h2\<rparr>
      in case api of
           ApiCancelled \<Rightarrow> (Inl CancelledError, a1)
         | ApiRaises \<Rightarrow> (Inr None, a1\<lparr>status := IDLE\<rparr>)
         | ApiReturns raw \<Rightarrow>
             (let response_text = strip raw;
                  a2 = a1\<lparr>conversation_history :=
                         conversation_history a1 @ [(''assistant'', response_text)]\<rparr>
              in if response_text = ''[PASS]''
                 then (Inr None, a2\<lparr>status := IDLE\<rparr>)
                 else (Inr (Some response_text),
                       a2\<lparr>status := SPEAKING, last_spoke_at := Some now,
                          message_count := message_count a2 + 1\<rparr>)))"

text \<open>
  \<open>step\<close>: the check of the client, the status set to \<open>THINKING\<close>, the \<open>try\<close> block, and
  the \<open>finally\<close> clause, which runs on every way out of the block.
\<close>

definition step ::
  "string \<Rightarrow> datetime \<Rightarrow> api_outcome \<Rightarrow> Agent \<Rightarrow> (py_error + string option) \<times> Agent" where
  "step chat_context now api a =
     (if \<not> client a then (Inl RuntimeError, a)
      else
        (let r = step_try chat_context now api (a\<lparr>status := THINKING\<rparr>)
         in (fst r, (snd r)\<lparr>status := IDLE\<rparr>)))"

definition respond ::
  "string \<Rightarrow> datetime \<Rightarrow> api_outcome \<Rightarrow> Agent \<Rightarrow> (py_error + string option) \<times> Agent" where
  "respond context now api a = step context now api a"

text \<open>\<open>should_respond\<close>, with the time \<open>datetime.now()\<close> returns given as \<open>now\<close>.\<close>

definition should_respond :: "Agent \<Rightarrow> Message \<Rightarrow> string list \<Rightarrow> datetime \<Rightarrow> rat" where
  "should_respond a message all_agents now =
     (let base_prob = fmul (response_tendency a) (fl (3/10))
      in if lower (name a) \<in> set (map lower (mentions message))
         then min (fl (95/100)) (fadd base_prob (fl (6/10)))
         else
           (let base_prob =
                  (if CHR ''?'' \<in> set (content message)
                   then fadd base_prob (fl (15/100)) else base_prob);
                content_lower = lower (content message);
                base_prob =
                  (if list_ex (\<lambda>interest. sublist (lower interest) content_lower) (interests a)
                   then fadd base_prob (fl (1/10)) else base_prob);
                base_prob =
                  (case last_spoke_at a of
                     None \<Rightarrow> base_prob
                   | Some t \<Rightarrow>
                       (let seconds_ago = total_seconds now t
                        in if seconds_ago < 10 then fmul base_prob (fl (3/10))
                           else if seconds_ago < 30 then fmul base_prob (fl (6/10))
                           else base_prob))
            in min (fl (8/10)) base_prob))"

text \<open>An agent as the dataclass defaults give it, the name and identifier given.\<close>

definition new_agent :: "string \<Rightarrow> string \<Rightarrow> Agent" where
  "new_agent nm i =
     \<lparr>name = nm, description = [], system_prompt = [], speaking_style = [], interests = [],
      response_tendency = 1/2, temperature = fl (7/10),
      model = ''claude-haiku-4-5-20251001'', tools = [], agent_id = i, status = OFFLINE,
      last_spoke_at = None, message_count = 0, conversation_history = [], client = False\<rparr>"

section \<open>The registry (arena/registry.py)\<close>

text \<open>
  \<open>_agents\<close> is a dictionary iterated in insertion order: an association list with
  distinct keys. \<open>_by_name\<close> is only looked up.
\<close>

record AgentRegistry =
  agents :: "(string \<times> Agent) list"
  by_name :: "string \<rightharpoonup> string"

definition new_registry :: AgentRegistry where
  "new_registry = \<lparr>agents = [], by_name = Map.empty\<rparr>"

definition register :: "Agent \<Rightarrow> AgentRegistry \<Rightarrow> py_error + AgentRegistry" where
  "register a r =
     (if agent_id a \<in> set (map fst (agents r)) then Inl ValueError
      else Inr (r\<lparr>agents := agents r @ [(agent_id a, a)],
                  by_name := (by_name r)(lower (name a) \<mapsto> agent_id a)\<rparr>))"

definition get :: "string \<Rightarrow> AgentRegistry \<Rightarrow> Agent option" where
  "get i r = map_of (agents r) i"

definition all_agents :: "AgentRegistry \<Rightarrow> Agent list" where
  "all_agents r = map snd (agents r)"

definition names :: "AgentRegistry \<Rightarrow> string list" where
  "names r = map (\<lambda>(i, a). name a) (agents r)"

definition count :: "AgentRegistry \<Rightarrow> nat" where
  "count r = length (agents r)"

section \<open>The arena (arena/world.py)\<close>

record 'h ArenaWorld =
  arena_name :: string
  registry :: AgentRegistry
  channels :: "string \<rightharpoonup> Channel"
  event_bus :: "'h EventBus"
  mode :: ScheduleMode
  round_interval :: rat
  max_speakers_per_round :: int
  running :: bool
  current_round :: int
  start_time :: "datetime option"
  default_channel :: string
  scheduler_task :: "task option"

text \<open>
  \<open>ArenaWorld()\<close> with the dataclass defaults; \<open>__post_init__\<close> creates the default
  channel, whose identifier and creation time are given.
\<close>

definition new_arena :: "string \<Rightarrow> datetime \<Rightarrow> 'h ArenaWorld" where
  "new_arena cid t =
     \<lparr>arena_name = ''Agent Arena'', registry = new_registry,
      channels = [''general'' \<mapsto> new_channel ''general'' ''General discussion'' cid t],
      event_bus = new_bus, mode = HYBRID, round_interval = 5, max_speakers_per_round = 3,
      running = False, current_round = 0, start_time = None, default_channel = ''general'',
      scheduler_task = None\<rparr>"

definition create_channel ::
  "string \<Rightarrow> string \<Rightarrow> string \<Rightarrow> datetime \<Rightarrow> 'h ArenaWorld \<Rightarrow> Channel \<times> 'h ArenaWorld" where
  "create_channel n d cid t w =
     (let c = new_channel n d cid t in (c, w\<lparr>channels := (channels w)(n \<mapsto> c)\<rparr>))"

definition get_channel :: "string \<Rightarrow> 'h ArenaWorld \<Rightarrow> Channel option" where
  "get_channel n w = channels w n"

text \<open>
  \<open>broadcast\<close>, with the time stamp of the event it emits given as \<open>now\<close>. The result is
  \<open>Inr\<close> of the arena afterwards when the call returns normally; no path of the function
  raises. On an unknown channel the source writes a warning to the module's logger, which
  is no part of the arena, and returns.
\<close>

definition broadcast :: "datetime \<Rightarrow> Message \<Rightarrow> 'h ArenaWorld \<Rightarrow> py_error + 'h ArenaWorld" where
  "broadcast now message w =
     (case channels w (channel message) of
        None \<Rightarrow> Inr w
      | Some ch \<Rightarrow>
          Inr (w\<lparr>channels := (channels w)(channel message \<mapsto> add_message message ch),
                 event_bus :=
                   emit \<lparr>ev_type = ''message'',
                         ev_data = MessageData (channel message) message,
                         ev_timestamp = now\<rparr> (event_bus w)\<rparr>))"

text \<open>
  \<open>start\<close> and \<open>stop\<close>. The scheduler loop is a task of its own; the arena holds its
  handle. \<open>now\<close> is the start time, \<open>now'\<close> the time stamp of the emitted event.
\<close>

definition start :: "datetime \<Rightarrow> datetime \<Rightarrow> 'h ArenaWorld \<Rightarrow> 'h ArenaWorld" where
  "start now now' w =
     (if running w then w
      else
        (let w1 = w\<lparr>running := True, start_time := Some now\<rparr>;
             w2 = w1\<lparr>event_bus := bus_start (event_bus w1)\<rparr>;
             w3 = w2\<lparr>scheduler_task := Some Pending\<rparr>
         in w3\<lparr>event_bus :=
                 emit \<lparr>ev_type = ''simulation_started'', ev_data = ModeData (mode w3),
                       ev_timestamp = now'\<rparr> (event_bus w3)\<rparr>))"

definition stop :: "datetime \<Rightarrow> 'h ArenaWorld \<Rightarrow> 'h ArenaWorld" where
  "stop now' w =
     (if \<not> running w then w
      else
        (let w1 = w\<lparr>running := False\<rparr>;
             w2 = (case scheduler_task w1 of
                     None \<Rightarrow> w1
                   | Some _ \<Rightarrow> w1\<lparr>scheduler_task := Some Cancelled\<rparr>);
             w3 = w2\<lparr>event_bus := bus_stop (event_bus w2)\<rparr>
         in w3\<lparr>event_bus :=
                 emit \<lparr>ev_type = ''simulation_stopped'', ev_data = RoundsData (current_round w3),
                       ev_timestamp = now'\<rparr> (event_bus w3)\<rparr>))"

text \<open>
  The loop of \<open>_select_speakers\<close> over the registry. \<open>random.random()\<close> is called once
  for each agent that reaches the scoring; \<open>rnd k\<close> is the value of its \<open>k\<close>-th call and
  \<open>clock k\<close> the time at the \<open>k\<close>-th scoring.
\<close>

fun candidates_loop ::
  "Message \<Rightarrow> string list \<Rightarrow> (nat \<Rightarrow> rat) \<Rightarrow> (nat \<Rightarrow> datetime) \<Rightarrow> nat \<Rightarrow> Agent list
   \<Rightarrow> (rat \<times> Agent) list" where
  "candidates_loop last_message ns rnd clock k [] = []"
| "candidates_loop last_message ns rnd clock k (a # as) =
     (if status a \<noteq> IDLE then candidates_loop last_message ns rnd clock k as
      else if agent_id a = sender_id last_message
      then candidates_loop last_message ns rnd clock k as
      else
        (let probability = should_respond a last_message ns (clock k)
         in if rnd k < probability
            then (probability, a) # candidates_loop last_message ns rnd clock (Suc k) as
            else candidates_loop last_message ns rnd clock (Suc k) as))"

text \<open>
  \<open>_select_speakers\<close>. \<open>random.choice\<close> returns one element of a non-empty list: the
  one at index \<open>pick mod length agents\<close>, for \<open>pick\<close> drawn by the random source. The sort
  is stable and descending in the probability.
\<close>

definition select_speakers ::
  "nat \<Rightarrow> (nat \<Rightarrow> rat) \<Rightarrow> (nat \<Rightarrow> datetime) \<Rightarrow> 'h ArenaWorld \<Rightarrow> py_error + Agent list" where
  "select_speakers pick rnd clock w =
     (case channels w (default_channel w) of
        None \<Rightarrow> Inl KeyError
      | Some ch \<Rightarrow>
          (let recent = get_recent_messages 1 ch
           in if recent = []
              then (let ags = all_agents (registry w)
                    in if ags \<noteq> [] then Inr [ags ! (pick mod length ags)] else Inr [])
              else
                (let last_message = last recent;
                     candidates =
                       candidates_loop last_message (names (registry w)) rnd clock 0
                         (all_agents (registry w))
                 in Inr (map snd (sort_key (\<lambda>c. - fst c) candidates)))))"

section \<open>Concrete inputs\<close>

text \<open>A \<open>message\<close> event, as \<open>broadcast\<close> emits it.\<close>

definition message_event :: Event where
  "message_event =
     \<lparr>ev_type = ''message'', ev_data = MessageData ''general'' (sample_message ''human'' ''hi''),
      ev_timestamp = 0\<rparr>"

text \<open>A message for a channel that no arena has.\<close>

definition stray_message :: Message where
  "stray_message = (sample_message ''human'' ''hello'')\<lparr>channel := ''nowhere''\<rparr>"

text \<open>A connected agent.\<close>

definition chatty :: Agent where
  "chatty = (new_agent ''Ann'' ''a1'')\<lparr>status := IDLE, client := True\<rparr>"

text \<open>
  The arena after an \<open>add_agent\<close> whose \<open>connect\<close> raised (no API key in the environment):
  \<open>register\<close> has run, the agent is still \<open>OFFLINE\<close>, and no join message was broadcast.
\<close>

definition offline_world :: "nat ArenaWorld" where
  "offline_world =
     (new_arena ''c0'' 0)\<lparr>registry :=
        \<lparr>agents = [(''a1'', new_agent ''Ann'' ''a1'')], by_name = [''ann'' \<mapsto> ''a1'']\<rparr>\<rparr>"

text \<open>
  An idle agent named Alice with the given response tendency and one interest, a message
  that mentions her, and one that mentions nobody (it holds a question mark and the
  interest).
\<close>

definition alice :: "rat \<Rightarrow> Agent" where
  "alice t = (new_agent ''Alice'' ''a2'')\<lparr>interests := [''Music''], response_tendency := t,
                status := IDLE\<rparr>"

definition mention_message :: Message where
  "mention_message =
     (sample_message ''human'' ''hey @alice, do you like music?'')\<lparr>mentions := [''alice'']\<rparr>"

definition plain_message :: Message where
  "plain_message = sample_message ''human'' ''Any thoughts on music?''"

section \<open>Properties of the message log\<close>

lemma slice_from_neg: "0 < n \<Longrightarrow> slice_from (- int n) xs = last_n n xs"
  by (simp add: slice_from_def last_n_def nat_diff_distrib' flip: of_nat_diff)

lemma length_last_n: "length (last_n n xs) = min n (length xs)"
  by (simp add: last_n_def)

lemma last_n_all: "length xs \<le> n \<Longrightarrow> last_n n xs = xs"
  by (simp add: last_n_def)

lemma last_n_snoc: "0 < n \<Longrightarrow> last_n n (last_n n xs @ [x]) = last_n n (xs @ [x])"
proof (cases "length xs \<le> n")
  case True
  then show ?thesis by (simp add: last_n_all)
next
  case False
  assume "0 < n"
  with False have "Suc (length xs) - n = Suc (length xs - n)" by arith
  with False \<open>0 < n\<close> show ?thesis by (simp add: last_n_def)
qed

lemma add_message_max_history: "max_history (add_message m c) = max_history c"
  by (simp add: add_message_def Let_def)

lemma add_messages_max_history: "max_history (add_messages ms c) = max_history c"
  unfolding add_messages_def
  by (induction ms arbitrary: c) (simp_all add: add_message_max_history)

lemma add_messages_snoc: "add_messages (ms @ [m]) c = add_message m (add_messages ms c)"
  by (simp add: add_messages_def)

text \<open>With a positive bound, one \<open>add_message\<close> keeps the last \<open>max_history\<close> messages.\<close>

lemma add_message_pos:
  assumes "0 < max_history c"
  shows "messages (add_message m c) = last_n (nat (max_history c)) (messages c @ [m])"
proof (cases "int (length (messages c @ [m])) > max_history c")
  case True
  from assms have "slice_from (- int (nat (max_history c))) (messages c @ [m])
      = last_n (nat (max_history c)) (messages c @ [m])"
    by (intro slice_from_neg) simp
  with assms True show ?thesis by (simp add: add_message_def Let_def)
next
  case False
  then have "length (messages c @ [m]) \<le> nat (max_history c)" by simp
  then have "last_n (nat (max_history c)) (messages c @ [m]) = messages c @ [m]"
    by (rule last_n_all)
  with False show ?thesis by (simp add: add_message_def Let_def)
qed

text \<open>
  With a positive bound, any sequence of \<open>add_message\<close> calls leaves the last
  \<open>max_history\<close> messages of the log, in append order (the sequence being non-empty, or
  the log within its bound before).
\<close>

lemma add_messages_bounded:
  assumes "0 < max_history c" and "ms \<noteq> [] \<or> int (length (messages c)) \<le> max_history c"
  shows "messages (add_messages ms c) = last_n (nat (max_history c)) (messages c @ ms)"
  using assms(2)
proof (induction ms rule: rev_induct)
  case Nil
  then show ?case by (simp add: add_messages_def last_n_all)
next
  case (snoc m ms)
  let ?n = "nat (max_history c)"
  from assms(1) have n: "0 < ?n" by simp
  have mh: "0 < max_history (add_messages ms c)"
    using assms(1) by (simp add: add_messages_max_history)
  have step: "messages (add_messages (ms @ [m]) c)
      = last_n ?n (messages (add_messages ms c) @ [m])"
    using add_message_pos[OF mh] by (simp add: add_messages_snoc add_messages_max_history)
  show ?case
  proof (cases "ms = [] \<and> \<not> int (length (messages c)) \<le> max_history c")
    case True
    then show ?thesis using step by (simp add: add_messages_def)
  next
    case False
    then have "messages (add_messages ms c) = last_n ?n (messages c @ ms)"
      using snoc.IH by blast
    with step n show ?thesis by (simp add: last_n_snoc)
  qed
qed

lemma add_messages_length:
  assumes "0 < max_history c" and "ms \<noteq> [] \<or> int (length (messages c)) \<le> max_history c"
  shows "int (length (messages (add_messages ms c))) \<le> max_history c"
  using assms by (simp add: add_messages_bounded length_last_n)

lemma add_messages_from_empty:
  assumes "0 < max_history c" and "messages c = []"
  shows "messages (add_messages ms c) = last_n (min (length ms) (nat (max_history c))) ms"
  using add_messages_bounded[of c ms] assms
  by (cases "length ms \<le> nat (max_history c)") (simp_all add: last_n_def min_def)

lemma add_message_zero: "max_history c = 0 \<Longrightarrow> messages (add_message m c) = messages c @ [m]"
  by (simp add: add_message_def Let_def slice_from_def)

lemma add_messages_zero:
  "max_history c = 0 \<Longrightarrow> messages (add_messages ms c) = messages c @ ms"
proof (induction ms rule: rev_induct)
  case Nil
  then show ?case by (simp add: add_messages_def)
next
  case (snoc m ms)
  then show ?case
    by (simp add: add_messages_snoc add_message_zero add_messages_max_history)
qed

text \<open>
  Claim C6: after any sequence of \<open>add_message\<close> calls the log holds at most
  \<open>max_history\<close> messages, the last ones appended. The code meets this for every positive
  bound (\<open>add_messages_bounded\<close>, \<open>add_messages_length\<close>). With \<open>max_history = 0\<close> the trim
  \<open>messages[-0:]\<close> keeps the whole list: a channel created with that bound retains every
  message it is given, so its log is longer than its bound after the first call.
\<close>

theorem add_messages_zero_history:
  "messages (add_messages ms ((new_channel n d i t)\<lparr>max_history := 0\<rparr>)) = ms
   \<and> max_history (add_messages ms ((new_channel n d i t)\<lparr>max_history := 0\<rparr>)) = 0"
  by (simp add: add_messages_zero add_messages_max_history) (simp add: new_channel_def)

lemma get_recent_messages_pos:
  "0 < n \<Longrightarrow> get_recent_messages (int n) c = last_n n (messages c)"
  by (simp add: get_recent_messages_def slice_from_neg)

text \<open>
  Claim C7: \<open>get_recent_messages(n)\<close> returns the last \<open>n\<close> messages, and the empty list
  for \<open>n = 0\<close>. The code meets this for every positive \<open>n\<close> (\<open>get_recent_messages_pos\<close>).
  For \<open>n = 0\<close> the slice \<open>messages[-0:]\<close> is the whole log.
\<close>

theorem get_recent_messages_zero: "get_recent_messages 0 c = messages c"
  by (simp add: get_recent_messages_def slice_from_def)

section \<open>Properties of the event bus\<close>

lemma dispatch_calls:
  "fst (dispatch e b) = subscribed (ev_type e) b @ subscribed ''*'' b"
  by (simp add: dispatch_def subscribed_def Let_def split: option.splits)

lemma dispatch_table:
  "handlers (snd (dispatch e b)) =
     (case handlers b (ev_type e) of
        None \<Rightarrow> handlers b
      | Some hs \<Rightarrow> (handlers b)(ev_type e \<mapsto> hs @ subscribed ''*'' b))"
  by (simp add: dispatch_def subscribed_def Let_def split: option.splits)

lemma subscribed_subscribe:
  "subscribed t (subscribe t' h b) = (if t = t' then subscribed t b @ [h] else subscribed t b)"
  by (simp add: subscribed_def subscribe_def Let_def)

lemma subscribed_new_bus: "subscribed t new_bus = []"
  by (simp add: subscribed_def new_bus_def)

text \<open>
  Claim C1: a dispatch invokes the handlers of the event's type and then the wildcard
  handlers, each once, and leaves the subscription table as it was. On a bus with one
  handler \<open>h\<close> for \<open>message\<close> and one wildcard handler \<open>w\<close>, the first dispatch of a
  \<open>message\<close> event invokes \<open>h\<close> and \<open>w\<close>, but it also stores \<open>w\<close> in the handler list of
  \<open>message\<close>; the second dispatch therefore invokes \<open>w\<close> twice.
\<close>

theorem dispatch_grows_handler_list:
  "fst (dispatch message_event (subscribe ''*'' w (subscribe ''message'' h new_bus))) = [h, w]
   \<and> subscribed ''message''
        (snd (dispatch message_event (subscribe ''*'' w (subscribe ''message'' h new_bus))))
      = [h, w]
   \<and> fst (dispatch message_event
        (snd (dispatch message_event (subscribe ''*'' w (subscribe ''message'' h new_bus)))))
      = [h, w, w]"
  by (simp add: dispatch_def subscribe_def new_bus_def subscribed_def message_event_def Let_def)

section \<open>Properties of the arena\<close>

text \<open>
  Claim C3, as amended: \<open>broadcast\<close> on a channel name the arena does not have returns
  normally and leaves the arena as it was: no message is appended and no event emitted.
\<close>

theorem broadcast_unknown_channel:
  "channels w (channel message) = None \<Longrightarrow> broadcast now message w = Inr w"
  by (simp add: broadcast_def)

theorem broadcast_unknown_channel_witness:
  "channels (new_arena ''c0'' 0 :: nat ArenaWorld) (channel stray_message) = None
   \<and> broadcast 5 stray_message (new_arena ''c0'' 0 :: nat ArenaWorld) = Inr (new_arena ''c0'' 0)"
  using broadcast_unknown_channel[of "new_arena ''c0'' 0 :: nat ArenaWorld" stray_message 5]
  by (simp add: stray_message_def new_arena_def sample_message_def)

text \<open>
  Claim C3 as stated (an unknown channel is an explicit failure for the caller) fails: the
  call returns normally, with the arena unchanged.
\<close>

theorem broadcast_unknown_channel_counterexample:
  "broadcast 0 stray_message (new_arena ''c0'' 0 :: nat ArenaWorld) = Inr (new_arena ''c0'' 0)"
  by (simp add: broadcast_def stray_message_def new_arena_def sample_message_def)

text \<open>
  Claim C9: \<open>start\<close> on a running arena and \<open>stop\<close> on a stopped one return the arena as
  it was: every field is unchanged, the event queue included, so no
  \<open>simulation_started\<close> or \<open>simulation_stopped\<close> event is emitted.
\<close>

theorem start_stop_noop:
  "(running w \<longrightarrow> start now now' w = w \<and> queue (event_bus (start now now' w)) = queue (event_bus w))
   \<and> (\<not> running w \<longrightarrow> stop now' w = w \<and> queue (event_bus (stop now' w)) = queue (event_bus w))"
  by (simp add: start_def stop_def)

theorem start_stop_noop_witness:
  "running (start 1 2 (new_arena ''c0'' 0 :: nat ArenaWorld))
   \<and> start 7 8 (start 1 2 (new_arena ''c0'' 0 :: nat ArenaWorld)) = start 1 2 (new_arena ''c0'' 0)
   \<and> \<not> running (new_arena ''c0'' 0 :: nat ArenaWorld)
   \<and> stop 9 (new_arena ''c0'' 0 :: nat ArenaWorld) = new_arena ''c0'' 0"
  using start_stop_noop[of "start 1 2 (new_arena ''c0'' 0 :: nat ArenaWorld)" 7 8]
    start_stop_noop[of "new_arena ''c0'' 0 :: nat ArenaWorld" 0 9]
  by (simp add: start_def new_arena_def Let_def)

subsection \<open>Speaker selection\<close>

lemma candidates_loop_idle:
  "(p, a) \<in> set (candidates_loop m ns rnd clock k as) \<Longrightarrow> a \<in> set as \<and> status a = IDLE"
  by (induction as arbitrary: k) (auto simp: Let_def split: if_splits)

text \<open>On a non-empty log every selected speaker is an \<open>IDLE\<close> agent.\<close>

lemma select_speakers_nonempty_log_idle:
  assumes "channels w (default_channel w) = Some ch" and "messages ch \<noteq> []"
    and "select_speakers pick rnd clock w = Inr speakers" and "a \<in> set speakers"
  shows "status a = IDLE"
proof -
  have "get_recent_messages 1 ch \<noteq> []"
    using assms(2) by (cases "messages ch") (simp_all add: get_recent_messages_def slice_from_def)
  with assms(1,3) obtain cs where
    "speakers = map snd (sort_key (\<lambda>c. - fst c) cs)"
    "set cs \<subseteq> set (candidates_loop (last (get_recent_messages 1 ch)) (names (registry w))
        rnd clock 0 (all_agents (registry w)))"
    by (auto simp: select_speakers_def Let_def)
  with assms(4) show ?thesis
    using candidates_loop_idle by fastforce
qed

lemma lower_Ann: "lower ''Ann'' = ''ann''"
  by code_simp

lemma offline_world_registered:
  "register (new_agent ''Ann'' ''a1'') new_registry = Inr (registry offline_world)"
  by (simp add: register_def new_registry_def offline_world_def lower_Ann)
    (simp add: new_agent_def lower_Ann)

text \<open>
  Claim C2: every agent \<open>_select_speakers\<close> returns is \<open>IDLE\<close>. The scoring path filters
  on the status (\<open>select_speakers_nonempty_log_idle\<close>); the icebreaker path draws from
  all registered agents. With an empty log and a registered agent that is \<open>OFFLINE\<close>, the
  selection returns that agent, whatever the random source gives.
\<close>

theorem icebreaker_picks_offline_agent:
  "select_speakers pick rnd clock offline_world = Inr [new_agent ''Ann'' ''a1'']
   \<and> status (new_agent ''Ann'' ''a1'') = OFFLINE"
  by (simp add: select_speakers_def offline_world_def new_arena_def new_channel_def
      get_recent_messages_def slice_from_def all_agents_def new_agent_def)

section \<open>Properties of the rounding to binary64\<close>

lemma rhe_floor_le: "\<lfloor>r\<rfloor> \<le> round_half_even r"
  by (simp add: round_half_even_def Let_def)

lemma rhe_le_floor: "round_half_even r \<le> \<lfloor>r\<rfloor> + 1"
  by (simp add: round_half_even_def Let_def)

lemma rhe_of_int: "round_half_even (of_int n) = n"
  by (simp add: round_half_even_def Let_def)

lemma rhe_ge_int:
  assumes "of_int n \<le> r"
  shows "n \<le> round_half_even r"
proof -
  from assms have "n \<le> \<lfloor>r\<rfloor>" by (simp add: le_floor_iff)
  with rhe_floor_le[of r] show ?thesis by simp
qed

lemma rhe_le_int:
  assumes "r \<le> of_int n"
  shows "round_half_even r \<le> n"
proof (cases "r = of_int n")
  case True
  then show ?thesis by (simp add: rhe_of_int)
next
  case False
  with assms have "r < of_int n" by simp
  then have "\<lfloor>r\<rfloor> < n" by (simp add: floor_less_iff)
  with rhe_le_floor[of r] show ?thesis by simp
qed

lemma rhe_mono:
  assumes "r \<le> s"
  shows "round_half_even r \<le> round_half_even s"
proof (cases "\<lfloor>r\<rfloor> < \<lfloor>s\<rfloor>")
  case True
  with rhe_le_floor[of r] rhe_floor_le[of s] show ?thesis by simp
next
  case False
  with floor_mono[OF assms] have "\<lfloor>r\<rfloor> = \<lfloor>s\<rfloor>" by simp
  with assms show ?thesis by (auto simp: round_half_even_def Let_def)
qed

lemma ilog2_bounds:
  assumes "0 < x"
  shows "2 powi (ilog2 x) \<le> x \<and> x < 2 powi (ilog2 x + 1)"
proof -
  obtain p q where pq: "quotient_of x = (p, q)" by (cases "quotient_of x")
  then have q: "0 < q" and x: "x = of_int p / of_int q"
    by (auto dest: quotient_of_denom_pos quotient_of_div)
  with assms have p: "0 < p" by (simp add: zero_less_divide_iff)
  define bp where "bp = bitlen p"
  define bq where "bq = bitlen q"
  have bp1: "1 \<le> bp" and bq1: "1 \<le> bq"
    using p q by (auto simp: bp_def bq_def bitlen_alt_def)
  have "2 ^ nat (bp - 1) \<le> p" "p < 2 ^ nat bp" "2 ^ nat (bq - 1) \<le> q" "q < 2 ^ nat bq"
    using bitlen_bounds[OF p] bitlen_bounds[OF q] by (simp_all add: bp_def bq_def)
  then have "(of_int (2 ^ nat (bp - 1)) :: rat) \<le> of_int p" "(of_int p :: rat) < of_int (2 ^ nat bp)"
    "(of_int (2 ^ nat (bq - 1)) :: rat) \<le> of_int q" "(of_int q :: rat) < of_int (2 ^ nat bq)"
    by (simp_all only: of_int_le_iff of_int_less_iff)
  then have P: "(2::rat) powi (bp - 1) \<le> of_int p" "(of_int p :: rat) < 2 powi bp"
    and Q: "(2::rat) powi (bq - 1) \<le> of_int q" "(of_int q :: rat) < 2 powi bq"
    using bp1 bq1 by (simp_all add: power_int_nonneg_exp)
  have qpos: "(0::rat) < of_int q" using q by simp
  have ppos: "(0::rat) < of_int p" using p by simp
  have up: "x < 2 powi (bp - bq + 1)"
  proof -
    have "x * of_int q = of_int p" using qpos by (simp add: x)
    also have "\<dots> < 2 powi bp" by (rule P(2))
    also have "\<dots> = (2::rat) powi (bp - bq + 1) * 2 powi (bq - 1)"
      by (simp flip: power_int_add)
    also have "\<dots> \<le> 2 powi (bp - bq + 1) * of_int q"
      using Q(1) by (intro mult_left_mono) simp_all
    finally show ?thesis using qpos by simp
  qed
  have lo: "2 powi (bp - bq - 1) \<le> x"
  proof -
    have "(2::rat) powi (bp - bq - 1) * of_int q \<le> 2 powi (bp - bq - 1) * 2 powi bq"
      using Q(2) by (intro mult_left_mono) simp_all
    also have "\<dots> = 2 powi (bp - 1)" by (simp flip: power_int_add)
    also have "\<dots> \<le> of_int p" by (rule P(1))
    also have "\<dots> = x * of_int q" using qpos by (simp add: x)
    finally show ?thesis using qpos by simp
  qed
  show ?thesis
  proof (cases "2 powi (bp - bq) \<le> x")
    case True
    then have "ilog2 x = bp - bq" by (simp add: ilog2_def pq bp_def bq_def)
    with True up show ?thesis by simp
  next
    case False
    then have "ilog2 x = bp - bq - 1" by (simp add: ilog2_def pq bp_def bq_def)
    with False lo show ?thesis by simp
  qed
qed

lemma ilog2_mono:
  assumes "0 < x" and "x \<le> y"
  shows "ilog2 x \<le> ilog2 y"
proof (rule ccontr)
  assume "\<not> ilog2 x \<le> ilog2 y"
  then have "ilog2 y + 1 \<le> ilog2 x" by simp
  then have "(2::rat) powi (ilog2 y + 1) \<le> 2 powi (ilog2 x)"
    by (intro power_int_increasing) simp_all
  also have "\<dots> \<le> x" using ilog2_bounds[OF assms(1)] by simp
  also have "\<dots> \<le> y" by (rule assms(2))
  finally show False using ilog2_bounds[of y] assms by simp
qed

lemma ulp_pos: "0 < ulp x"
  by (simp add: ulp_def)

lemma fl_zero: "fl 0 = 0"
  by (simp add: fl_def)

lemma fl_nonneg: "0 \<le> x \<Longrightarrow> 0 \<le> fl x"
proof -
  assume "0 \<le> x"
  then have "of_int 0 \<le> x / ulp x" using ulp_pos[of x] by simp
  then have "0 \<le> round_half_even (x / ulp x)" by (rule rhe_ge_int)
  then show ?thesis using ulp_pos[of x] by (simp add: fl_def)
qed

lemma pow2_split: "(2::rat) powi (e + 1) = of_int (2 ^ 53) * 2 powi (e - 52)"
proof -
  have "e + 1 = 53 + (e - 52)" by simp
  then have "(2::rat) powi (e + 1) = 2 powi (53 + (e - 52))" by (rule arg_cong)
  also have "\<dots> = 2 powi 53 * 2 powi (e - 52)" by (rule power_int_add) simp
  finally show ?thesis by simp
qed

lemma pow2_split': "(2::rat) powi e = of_int (2 ^ 52) * 2 powi (e - 52)"
proof -
  have "(2::rat) powi e = 2 powi (52 + (e - 52))" by simp
  also have "\<dots> = 2 powi 52 * 2 powi (e - 52)" by (rule power_int_add) simp
  finally show ?thesis by simp
qed

lemma fl_pos_eq:
  assumes "0 < x"
  shows "fl x = of_int (round_half_even (x / 2 powi (max (ilog2 x) (- 1022) - 52)))
           * 2 powi (max (ilog2 x) (- 1022) - 52)"
  using assms by (simp add: fl_def ulp_def)

text \<open>A positive number of binade \<open>e\<close> rounds into the closed binade.\<close>

lemma fl_le_binade:
  assumes "0 < x" and "e = max (ilog2 x) (- 1022)"
  shows "fl x \<le> 2 powi (e + 1)"
proof -
  let ?u = "(2::rat) powi (e - 52)"
  have u: "0 < ?u" by simp
  have "x < 2 powi (ilog2 x + 1)" using ilog2_bounds[OF assms(1)] by simp
  also have "\<dots> \<le> 2 powi (e + 1)"
    using assms(2) by (intro power_int_increasing) simp_all
  finally have "x \<le> of_int (2 ^ 53) * ?u" by (simp only: pow2_split)
  then have "x / ?u \<le> of_int (2 ^ 53)" using u by (simp add: pos_divide_le_eq)
  then have "round_half_even (x / ?u) \<le> 2 ^ 53" by (rule rhe_le_int)
  then have "(of_int (round_half_even (x / ?u)) :: rat) \<le> of_int (2 ^ 53)"
    by (simp only: of_int_le_iff)
  then have "of_int (round_half_even (x / ?u)) * ?u \<le> of_int (2 ^ 53) * ?u"
    using u by (intro mult_right_mono) simp_all
  then show ?thesis
    using assms by (simp only: fl_pos_eq pow2_split)
qed

lemma fl_ge_binade:
  assumes "0 < y" and "- 1022 \<le> ilog2 y"
  shows "2 powi (ilog2 y) \<le> fl y"
proof -
  let ?e = "ilog2 y"
  let ?u = "(2::rat) powi (?e - 52)"
  have u: "0 < ?u" by simp
  have m: "max ?e (- 1022) = ?e" using assms(2) by simp
  have "of_int (2 ^ 52) * ?u \<le> y"
    using ilog2_bounds[OF assms(1)] by (simp only: flip: pow2_split')
  then have "of_int (2 ^ 52) \<le> y / ?u" using u by (simp add: pos_le_divide_eq)
  then have "2 ^ 52 \<le> round_half_even (y / ?u)" by (rule rhe_ge_int)
  then have "(of_int (2 ^ 52) :: rat) \<le> of_int (round_half_even (y / ?u))"
    by (simp only: of_int_le_iff)
  then have "of_int (2 ^ 52) * ?u \<le> of_int (round_half_even (y / ?u)) * ?u"
    using u by (intro mult_right_mono) simp_all
  then show ?thesis
    using assms(1) by (simp only: fl_pos_eq m flip: pow2_split')
qed

lemma fl_mono_pos:
  assumes "0 < x" and "x \<le> y"
  shows "fl x \<le> fl y"
proof -
  from assms have y: "0 < y" by simp
  define ex where "ex = max (ilog2 x) (- 1022)"
  define ey where "ey = max (ilog2 y) (- 1022)"
  have le: "ex \<le> ey" using ilog2_mono[OF assms] by (simp add: ex_def ey_def)
  show ?thesis
  proof (cases "ex = ey")
    case True
    let ?u = "(2::rat) powi (ex - 52)"
    have u: "0 < ?u" by simp
    have "x / ?u \<le> y / ?u" using assms(2) u by (simp add: divide_right_mono)
    then have "round_half_even (x / ?u) \<le> round_half_even (y / ?u)" by (rule rhe_mono)
    then have "(of_int (round_half_even (x / ?u)) :: rat) \<le> of_int (round_half_even (y / ?u))"
      by (simp only: of_int_le_iff)
    then have "of_int (round_half_even (x / ?u)) * ?u \<le> of_int (round_half_even (y / ?u)) * ?u"
      using u by (intro mult_right_mono) simp_all
    then show ?thesis
      using True by (simp only: fl_pos_eq[OF assms(1)] fl_pos_eq[OF y] flip: ex_def ey_def)
  next
    case False
    with le have lt: "ex + 1 \<le> ey" by simp
    then have ey: "ey = ilog2 y" and big: "- 1022 \<le> ilog2 y"
      by (simp_all add: ex_def ey_def)
    have "fl x \<le> 2 powi (ex + 1)" using assms(1) ex_def by (rule fl_le_binade)
    also have "\<dots> \<le> 2 powi ey" using lt by (intro power_int_increasing) simp_all
    also have "\<dots> \<le> fl y" unfolding ey using y big by (rule fl_ge_binade)
    finally show ?thesis .
  qed
qed

lemma fl_mono_nonneg:
  assumes "0 \<le> x" and "x \<le> y"
  shows "fl x \<le> fl y"
proof (cases "x = 0")
  case True
  with assms fl_nonneg[of y] show ?thesis by (simp add: fl_zero)
next
  case False
  with assms have "0 < x" by simp
  then show ?thesis using assms(2) by (rule fl_mono_pos)
qed

lemma rhe_minus: "round_half_even (- r) = - round_half_even r"
proof (cases "r = of_int \<lfloor>r\<rfloor>")
  case True
  then obtain n where "r = of_int n" ..
  then have "- r = of_int (- n)" by simp
  then show ?thesis using \<open>r = of_int n\<close> by (simp only: rhe_of_int)
next
  case False
  then have "\<lceil>r\<rceil> = \<lfloor>r\<rfloor> + 1" by (simp add: ceiling_altdef)
  then have fl: "\<lfloor>- r\<rfloor> = - \<lfloor>r\<rfloor> - 1" by (simp add: ceiling_def)
  show ?thesis
    unfolding round_half_even_def Let_def fl
    by (auto simp: algebra_simps)
qed

lemma ulp_minus: "ulp (- x) = ulp x"
  by (simp add: ulp_def)

lemma fl_minus: "fl (- x) = - fl x"
  by (simp add: fl_def ulp_minus rhe_minus)

lemma fl_nonpos: "x \<le> 0 \<Longrightarrow> fl x \<le> 0"
  using fl_nonneg[of "- x"] by (simp add: fl_minus)

lemma fl_mono:
  assumes "x \<le> y"
  shows "fl x \<le> fl y"
proof (cases "0 \<le> x")
  case True
  then show ?thesis using assms by (rule fl_mono_nonneg)
next
  case False
  show ?thesis
  proof (cases "0 \<le> y")
    case True
    with False fl_nonpos[of x] fl_nonneg[of y] show ?thesis by simp
  next
    case y: False
    then have "0 \<le> - y" "- y \<le> - x" using assms by simp_all
    then have "fl (- y) \<le> fl (- x)" by (rule fl_mono_nonneg)
    then show ?thesis by (simp add: fl_minus)
  qed
qed

lemma fadd_mono: "x \<le> y \<Longrightarrow> fadd x c \<le> fadd y c"
  unfolding fadd_def by (rule fl_mono) simp

lemma fmul_mono: "x \<le> y \<Longrightarrow> 0 \<le> c \<Longrightarrow> fmul x c \<le> fmul y c"
  unfolding fmul_def by (rule fl_mono) (simp add: mult_right_mono)

lemma fadd_nonneg: "0 \<le> x \<Longrightarrow> 0 \<le> c \<Longrightarrow> 0 \<le> fadd x c"
  unfolding fadd_def by (rule fl_nonneg) simp

lemma fmul_nonneg: "0 \<le> x \<Longrightarrow> 0 \<le> c \<Longrightarrow> 0 \<le> fmul x c"
  unfolding fmul_def by (rule fl_nonneg) simp

lemma fmul_commute: "fmul x y = fmul y x"
  by (simp add: fmul_def mult.commute)

section \<open>Properties of the agent\<close>

text \<open>
  Claim C10: for a connected agent, whatever the API call does, the status after \<open>step\<close>
  (and \<open>respond\<close>, which is \<open>step\<close>) is \<open>IDLE\<close>; \<open>last_spoke_at\<close> and \<open>message_count\<close>
  change only when the call returns a text other than \<open>[PASS]\<close>, and are then the
  current time and one more than before.
\<close>

theorem step_leaves_idle:
  assumes "client a"
  shows "respond ctx now api a = step ctx now api a \<and>
    status (snd (step ctx now api a)) = IDLE \<and>
    (case api of
       ApiReturns raw \<Rightarrow>
         if strip raw = ''[PASS]''
         then fst (step ctx now api a) = Inr None
              \<and> last_spoke_at (snd (step ctx now api a)) = last_spoke_at a
              \<and> message_count (snd (step ctx now api a)) = message_count a
         else fst (step ctx now api a) = Inr (Some (strip raw))
              \<and> last_spoke_at (snd (step ctx now api a)) = Some now
              \<and> message_count (snd (step ctx now api a)) = message_count a + 1
     | ApiRaises \<Rightarrow>
         fst (step ctx now api a) = Inr None
         \<and> last_spoke_at (snd (step ctx now api a)) = last_spoke_at a
         \<and> message_count (snd (step ctx now api a)) = message_count a
     | ApiCancelled \<Rightarrow>
         fst (step ctx now api a) = Inl CancelledError
         \<and> last_spoke_at (snd (step ctx now api a)) = last_spoke_at a
         \<and> message_count (snd (step ctx now api a)) = message_count a)"
  using assms by (cases api) (simp_all add: respond_def step_def step_try_def Let_def)

theorem step_leaves_idle_witness:
  "client chatty
   \<and> step ''ctx'' 42 (ApiReturns '' Hello there '') chatty
       = (Inr (Some ''Hello there''),
          chatty\<lparr>last_spoke_at := Some 42, message_count := 1,
            conversation_history :=
              [(''user'', user_message ''ctx'' ''Ann''), (''assistant'', ''Hello there'')]\<rparr>)
   \<and> status (snd (step ''ctx'' 42 (ApiReturns '' Hello there '') chatty)) = IDLE"
  using step_leaves_idle[of chatty "''ctx''" 42 "ApiReturns '' Hello there ''"]
  by (simp add: chatty_def new_agent_def step_def step_try_def Let_def strip_def isspace_def)

subsection \<open>The score\<close>

text \<open>The float computations on constants that the proofs below use.\<close>

lemma float_consts:
  "fmul 1 (fl (3/10)) = fl (3/10)"
  "fl (3/10) \<le> 11/20"
  "fadd (fl (3/10)) (fl (15/100)) \<le> 11/20"
  "fadd (fl (3/10)) (fl (1/10)) \<le> 11/20"
  "fadd (fadd (fl (3/10)) (fl (15/100))) (fl (1/10)) \<le> 11/20"
  "fmul (11/20) (fl (3/10)) \<le> 8/10"
  "fmul (11/20) (fl (6/10)) \<le> 8/10"
  "8/10 \<le> fl (8/10)"
  "fadd 0 (fl (6/10)) = fl (6/10)"
  "fl (6/10) \<le> fl (95/100)"
  "fadd (fl (3/10)) (fl (6/10)) \<le> 9/10"
  "fl 5 = 5"
  "min (fl (95/100)) (fadd (fmul (1/2) (fl (3/10))) (fl (6/10))) = 3/4"
  by code_simp+

lemma float_consts_nonneg:
  "0 \<le> fl (3/10)" "0 \<le> fl (6/10)" "0 \<le> fl (15/100)" "0 \<le> fl (1/10)" "0 \<le> fl (8/10)"
  by (simp_all add: fl_nonneg)

lemma base_upper: "t \<le> 1 \<Longrightarrow> fmul t (fl (3/10)) \<le> fl (3/10)"
  using fmul_mono[of t 1 "fl (3/10)"] by (simp add: float_consts float_consts_nonneg)

lemma boost_upper:
  assumes "x \<le> fl (3/10)"
  shows "x \<le> 11/20" and "fadd x (fl (15/100)) \<le> 11/20" and "fadd x (fl (1/10)) \<le> 11/20"
    and "fadd (fadd x (fl (15/100))) (fl (1/10)) \<le> 11/20"
proof -
  show "x \<le> 11/20" using assms float_consts(2) by simp
  show "fadd x (fl (15/100)) \<le> 11/20"
    using fadd_mono[OF assms, of "fl (15/100)"] float_consts(3) by simp
  show "fadd x (fl (1/10)) \<le> 11/20"
    using fadd_mono[OF assms, of "fl (1/10)"] float_consts(4) by simp
  show "fadd (fadd x (fl (15/100))) (fl (1/10)) \<le> 11/20"
    using fadd_mono[OF fadd_mono[OF assms, of "fl (15/100)"], of "fl (1/10)"] float_consts(5)
    by simp
qed

lemma recency_upper:
  assumes "b \<le> 11/20"
  shows "fmul b (fl (3/10)) \<le> 8/10" and "fmul b (fl (6/10)) \<le> 8/10" and "b \<le> 8/10"
proof -
  show "fmul b (fl (3/10)) \<le> 8/10"
    using fmul_mono[OF assms float_consts_nonneg(1)] float_consts(6) by simp
  show "fmul b (fl (6/10)) \<le> 8/10"
    using fmul_mono[OF assms float_consts_nonneg(2)] float_consts(7) by simp
  show "b \<le> 8/10" using assms by simp
qed

lemma float_consts_cex:
  "8/10 < min (fl (95/100)) (fadd (fmul 1 (fl (3/10))) (fl (6/10)))"
  "fl (8/10) < min (fl (95/100)) (fadd (fmul 1 (fl (3/10))) (fl (6/10)))"
  "min (fl (95/100)) (fadd (fmul 1 (fl (3/10))) (fl (6/10))) = 8106479329266892 / 2 ^ 53"
  by code_simp+

lemma lower_Alice: "lower ''Alice'' = ''alice''" "lower ''alice'' = ''alice''"
  by code_simp+

text \<open>The score of an agent that is not mentioned, by the stages of the source.\<close>

lemma should_respond_not_mentioned:
  assumes "lower (name a) \<notin> set (map lower (mentions m))"
  shows "\<exists>b. b \<in> {fmul (response_tendency a) (fl (3/10)),
                  fadd (fmul (response_tendency a) (fl (3/10))) (fl (15/100)),
                  fadd (fmul (response_tendency a) (fl (3/10))) (fl (1/10)),
                  fadd (fadd (fmul (response_tendency a) (fl (3/10))) (fl (15/100))) (fl (1/10))}
    \<and> should_respond (a\<lparr>last_spoke_at := None\<rparr>) m ns now = min (fl (8/10)) b
    \<and> should_respond (a\<lparr>last_spoke_at := Some (now - 5000000)\<rparr>) m ns now
        = min (fl (8/10)) (fmul b (fl (3/10)))
    \<and> should_respond a m ns now \<in>
        {min (fl (8/10)) b, min (fl (8/10)) (fmul b (fl (3/10))),
         min (fl (8/10)) (fmul b (fl (6/10)))}"
  using assms
  by (auto simp: should_respond_def Let_def total_seconds_def float_consts(12)
      split: option.splits)

text \<open>
  Claim C5: an agent with response tendency 0.5 whose name is among the mentions scores
  exactly 0.75, which is \<open>min(0.95, 0.5 * 0.3 + 0.6)\<close> in float arithmetic, whatever the
  content, the interests and \<open>last_spoke_at\<close> are.
\<close>

theorem mention_score:
  assumes "response_tendency a = 1/2" and "lower (name a) \<in> set (map lower (mentions m))"
  shows "should_respond a m ns now
           = min (fl (95/100)) (fadd (fmul (1/2) (fl (3/10))) (fl (6/10)))
         \<and> should_respond a m ns now = 3/4"
proof -
  have "should_respond a m ns now
      = min (fl (95/100)) (fadd (fmul (response_tendency a) (fl (3/10))) (fl (6/10)))"
    using assms(2) by (simp add: should_respond_def Let_def)
  then have eq: "should_respond a m ns now
      = min (fl (95/100)) (fadd (fmul (1/2) (fl (3/10))) (fl (6/10)))"
    unfolding assms(1) .
  moreover have "should_respond a m ns now = 3/4"
    unfolding eq by (rule float_consts(13))
  ultimately show ?thesis by (rule conjI)
qed

theorem mention_score_witness:
  "response_tendency (alice (1/2)) = 1/2
   \<and> lower (name (alice (1/2))) \<in> set (map lower (mentions mention_message))
   \<and> should_respond (alice (1/2)) mention_message [''Alice''] 0 = 3/4"
  using mention_score[of "alice (1/2)" mention_message "[''Alice'']" 0]
  by (simp add: alice_def new_agent_def mention_message_def sample_message_def lower_Alice)

text \<open>
  Claim C4, as amended: for a response tendency in \<open>[0, 1]\<close> the score is in \<open>[0, 0.8]\<close>
  when the agent's name is not among the mentions, and in \<open>[0.6, 0.9]\<close> when it is.
\<close>

theorem should_respond_range:
  assumes "0 \<le> response_tendency a" and "response_tendency a \<le> 1"
  shows "if lower (name a) \<in> set (map lower (mentions m))
         then fl (6/10) \<le> should_respond a m ns now \<and> should_respond a m ns now \<le> 9/10
         else 0 \<le> should_respond a m ns now \<and> should_respond a m ns now \<le> 8/10"
proof (cases "lower (name a) \<in> set (map lower (mentions m))")
  case True
  let ?b = "fmul (response_tendency a) (fl (3/10))"
  have sr: "should_respond a m ns now = min (fl (95/100)) (fadd ?b (fl (6/10)))"
    using True by (simp add: should_respond_def Let_def)
  have b0: "0 \<le> ?b" using assms(1) by (simp add: fmul_nonneg float_consts_nonneg)
  have lo: "fl (6/10) \<le> fadd ?b (fl (6/10))"
    using fadd_mono[OF b0, of "fl (6/10)"] by (simp only: float_consts(9))
  have hi: "fadd ?b (fl (6/10)) \<le> 9/10"
    using fadd_mono[OF base_upper[OF assms(2)], of "fl (6/10)"] float_consts(11) by simp
  from lo hi float_consts(10) show ?thesis using True by (simp add: sr min_def)
next
  case False
  let ?b = "fmul (response_tendency a) (fl (3/10))"
  have b0: "0 \<le> ?b" using assms(1) by (simp add: fmul_nonneg float_consts_nonneg)
  obtain b where b: "b \<in> {?b, fadd ?b (fl (15/100)), fadd ?b (fl (1/10)),
      fadd (fadd ?b (fl (15/100))) (fl (1/10))}"
    and sr: "should_respond a m ns now \<in>
        {min (fl (8/10)) b, min (fl (8/10)) (fmul b (fl (3/10))),
         min (fl (8/10)) (fmul b (fl (6/10)))}"
    using should_respond_not_mentioned[OF False, of ns now] by blast
  have bhi: "b \<le> 11/20" using b boost_upper[OF base_upper[OF assms(2)]] by auto
  have blo: "0 \<le> b" using b b0 by (auto intro!: fadd_nonneg fl_nonneg)
  have "0 \<le> fmul b (fl (3/10))" "0 \<le> fmul b (fl (6/10))"
    using blo by (auto intro!: fmul_nonneg fl_nonneg)
  with blo recency_upper[OF bhi] sr float_consts_nonneg(5) show ?thesis
    using False by (auto simp: min_def)
qed

theorem should_respond_range_witness:
  "0 \<le> response_tendency (alice (1/2)) \<and> response_tendency (alice (1/2)) \<le> 1
   \<and> 0 \<le> should_respond (alice (1/2)) plain_message [''Alice''] 0
   \<and> should_respond (alice (1/2)) plain_message [''Alice''] 0 \<le> 8/10"
  using should_respond_range[of "alice (1/2)" plain_message "[''Alice'']" 0]
  by (simp add: alice_def new_agent_def plain_message_def sample_message_def)

text \<open>
  Claim C4 as stated (the score is in \<open>[0, 0.8]\<close> for every agent with a tendency in
  \<open>[0, 1]\<close>) fails: a mentioned agent with tendency 1 scores \<open>0.3 + 0.6\<close>, above 0.8.
\<close>

theorem should_respond_range_counterexample:
  "8/10 < should_respond (alice 1) mention_message [''Alice''] 0
   \<and> fl (8/10) < should_respond (alice 1) mention_message [''Alice''] 0"
proof -
  have "should_respond (alice 1) mention_message [''Alice''] 0
      = min (fl (95/100)) (fadd (fmul 1 (fl (3/10))) (fl (6/10)))"
    by (simp add: should_respond_def Let_def alice_def new_agent_def mention_message_def
        sample_message_def lower_Alice)
  then show ?thesis by (simp only: float_consts_cex(1,2))
qed

text \<open>
  Claim C8: for an agent that is not mentioned (response tendency at most 1, the upper end
  of its range), the score with \<open>last_spoke_at\<close> five seconds before the scoring time is
  the float product of 0.3 and the score with no \<open>last_spoke_at\<close>.
\<close>

theorem recency_suppression:
  assumes "response_tendency a \<le> 1" and "lower (name a) \<notin> set (map lower (mentions m))"
  shows "should_respond (a\<lparr>last_spoke_at := Some (now - 5000000)\<rparr>) m ns now
         = fmul (fl (3/10)) (should_respond (a\<lparr>last_spoke_at := None\<rparr>) m ns now)"
proof -
  let ?b = "fmul (response_tendency a) (fl (3/10))"
  obtain b where b: "b \<in> {?b, fadd ?b (fl (15/100)), fadd ?b (fl (1/10)),
      fadd (fadd ?b (fl (15/100))) (fl (1/10))}"
    and none: "should_respond (a\<lparr>last_spoke_at := None\<rparr>) m ns now = min (fl (8/10)) b"
    and some: "should_respond (a\<lparr>last_spoke_at := Some (now - 5000000)\<rparr>) m ns now
        = min (fl (8/10)) (fmul b (fl (3/10)))"
    using should_respond_not_mentioned[OF assms(2), of ns now] by blast
  have bhi: "b \<le> 11/20" using b boost_upper[OF base_upper[OF assms(1)]] by auto
  have "b \<le> fl (8/10)" "fmul b (fl (3/10)) \<le> fl (8/10)"
    using recency_upper[OF bhi] float_consts(8) by simp_all
  then show ?thesis by (simp add: none some min_def fmul_commute)
qed

theorem recency_suppression_witness:
  "response_tendency (alice (1/2)) \<le> 1
   \<and> lower (name (alice (1/2))) \<notin> set (map lower (mentions plain_message))
   \<and> should_respond ((alice (1/2))\<lparr>last_spoke_at := Some (60000000 - 5000000)\<rparr>)
         plain_message [''Alice''] 60000000
       = fmul (fl (3/10))
           (should_respond ((alice (1/2))\<lparr>last_spoke_at := None\<rparr>)
              plain_message [''Alice''] 60000000)"
  using recency_suppression[of "alice (1/2)" plain_message 60000000 "[''Alice'']"]
  by (simp add: alice_def new_agent_def plain_message_def sample_message_def)

text \<open>
  The bound on the tendency is needed: with a tendency of 3, outside the range, the
  unsuppressed score is capped at 0.8 and the suppressed one is not 0.3 times it.
\<close>

lemma suppression_outside_range:
  "should_respond ((alice 3)\<lparr>last_spoke_at := Some 55000000\<rparr>) plain_message [''Alice''] 60000000
   \<noteq> fmul (fl (3/10))
       (should_respond ((alice 3)\<lparr>last_spoke_at := None\<rparr>) plain_message [''Alice''] 60000000)"
  by code_simp

end
